theory Spec2Isabelle
  imports Main
begin

section \<open>The category table of \<^verbatim>\<open>rich_logger.py\<close>\<close>

text \<open>
  The levels of Python's \<^verbatim>\<open>logging\<close> module are integers. Strings are modelled as
  \<^typ>\<open>string\<close>; every label, colour and category name of the source is ASCII.
\<close>

definition NOTSET :: int where "NOTSET = 0"
definition DEBUG :: int where "DEBUG = 10"
definition INFO :: int where "INFO = 20"
definition WARNING :: int where "WARNING = 30"
definition ERROR :: int where "ERROR = 40"

text \<open>One value of the dictionary \<^verbatim>\<open>LOG_CATEGORIES\<close>: the keys "label", "color", "level".\<close>

record props =
  label :: string
  color :: string
  level :: int

text \<open>
  \<^verbatim>\<open>RichLogger.LOG_CATEGORIES\<close> (lines 82--167), a dictionary in insertion order. It is a
  class attribute that callers may extend, so the constructor below takes the table as an
  argument.
\<close>

definition LOG_CATEGORIES :: "(string \<times> props) list" where
  "LOG_CATEGORIES =
    [(''read'',    \<lparr>label = ''READ'',     color = ''magenta'', level = INFO\<rparr>),
     (''write'',   \<lparr>label = ''WRITE'',    color = ''magenta'', level = INFO\<rparr>),
     (''meta'',    \<lparr>label = ''METADATA'', color = ''magenta'', level = INFO\<rparr>),
     (''stage'',   \<lparr>label = ''STAGE'',    color = ''blue'',    level = INFO\<rparr>),
     (''step'',    \<lparr>label = ''STEP'',     color = ''blue'',    level = INFO\<rparr>),
     (''substep'', \<lparr>label = ''SUB'',      color = ''blue'',    level = INFO\<rparr>),
     (''info'',    \<lparr>label = ''STATUS'',   color = ''blue'',    level = INFO\<rparr>),
     (''config'',  \<lparr>label = ''CONFIG'',   color = ''cyan'',    level = INFO\<rparr>),
     (''metric'',  \<lparr>label = ''METRIC'',   color = ''cyan'',    level = INFO\<rparr>),
     (''result'',  \<lparr>label = ''RESULT'',   color = ''cyan'',    level = INFO\<rparr>),
     (''warning'', \<lparr>label = ''WARNING'',  color = ''yellow'',  level = WARNING\<rparr>),
     (''alert'',   \<lparr>label = ''ALERT'',    color = ''red'',     level = ERROR\<rparr>),
     (''error'',   \<lparr>label = ''ERROR'',    color = ''red'',     level = ERROR\<rparr>),
     (''check'',   \<lparr>label = ''CHECK'',    color = ''green'',   level = DEBUG\<rparr>),
     (''debug'',   \<lparr>label = ''DEBUG'',    color = ''green'',   level = DEBUG\<rparr>)]"

text \<open>
  The specification's reading of the table: the severities are an ordered enumeration
  (trace < debug < info < warning < error), and the recommended defaults are listed as
  name, label, colour and severity.
\<close>

datatype severity = Trace | Debug | Info | Warning | Error

fun severity_of_level :: "int \<Rightarrow> severity option" where
  "severity_of_level l =
    (if l = 10 then Some Debug else if l = 20 then Some Info
     else if l = 30 then Some Warning else if l = 40 then Some Error else None)"

definition spec_default_categories :: "(string \<times> string \<times> string \<times> severity) list" where
  "spec_default_categories =
    [(''read'', ''READ'', ''magenta'', Info), (''write'', ''WRITE'', ''magenta'', Info),
     (''meta'', ''METADATA'', ''magenta'', Info), (''stage'', ''STAGE'', ''blue'', Info),
     (''step'', ''STEP'', ''blue'', Info), (''substep'', ''SUB'', ''blue'', Info),
     (''info'', ''STATUS'', ''blue'', Info), (''config'', ''CONFIG'', ''cyan'', Info),
     (''metric'', ''METRIC'', ''cyan'', Info), (''result'', ''RESULT'', ''cyan'', Info),
     (''warning'', ''WARNING'', ''yellow'', Warning), (''alert'', ''ALERT'', ''red'', Error),
     (''error'', ''ERROR'', ''red'', Error), (''check'', ''CHECK'', ''green'', Debug),
     (''debug'', ''DEBUG'', ''green'', Debug)]"

definition descriptor_of :: "string \<times> props \<Rightarrow> (string \<times> string \<times> string \<times> severity) option" where
  "descriptor_of e =
    (case severity_of_level (level (snd e)) of
       None \<Rightarrow> None
     | Some s \<Rightarrow> Some (fst e, label (snd e), color (snd e), s))"

section \<open>The part of Python's \<^verbatim>\<open>logging\<close> that the class drives\<close>

text \<open>
  The standard library and \<^verbatim>\<open>rich\<close> are the program's environment. What the source
  touches is modelled: the registry of loggers by name (\<^verbatim>\<open>getLogger\<close>), a logger's
  level, handler list and propagate flag, and \<^verbatim>\<open>Logger.log\<close>, which filters by the
  effective level, builds one record and hands it to the handlers whose own level admits
  it. The logger hierarchy is flat here: the parent of every named logger is the root
  logger. Filters, \<^verbatim>\<open>logging.disable\<close> and the \<^verbatim>\<open>disabled\<close> flag are left out.
  A \<^verbatim>\<open>RichHandler\<close> parses the text it renders as console markup before it prints, and
  an error of that parser reaches the caller of \<^verbatim>\<open>Logger.log\<close>.
\<close>

text \<open>
  The exceptions that reach a caller of the class: the two that Python's attribute lookup
  and calling convention raise, and the \<^verbatim>\<open>MarkupError\<close> that \<^verbatim>\<open>rich\<close> raises for console
  markup it cannot parse.
\<close>

datatype py_error = AttributeError | TypeError | MarkupError

text \<open>
  A handler is the \<^verbatim>\<open>RichHandler\<close> of lines 188--195, with the five options the
  constructor passes and its level, or some other handler that another part of the
  program installed, of which only a tag and the level matter. Console objects carry no
  identity here, so the handler does not record which console it writes to. The handlers
  of the standard library report their own failures and raise nothing, and so do the other
  handlers of the model.
\<close>

datatype handler =
    RichHandler (show_time: bool) (show_level: bool) (show_path: bool) (markup: bool)
      (rich_tracebacks: bool) (h_level: int)
  | OtherHandler (tag: string) (h_level: int)

record logger =
  lg_level :: int
  handlers :: "handler list"
  propagate :: bool

text \<open>
  A log record. \<^verbatim>\<open>exc_info\<close> is \<open>None\<close> when no traceback was asked for (the
  caller's falsy \<^verbatim>\<open>exc_info\<close> is kept as it is), and otherwise
  what \<^verbatim>\<open>sys.exc_info()\<close> gave: \<open>Some None\<close> stands for the triple of \<^verbatim>\<open>None\<close>s of
  a call outside any exception handler, \<open>Some (Some e)\<close> for the active exception \<open>e\<close>.
  An exception is written as the text that the formatter of \<^verbatim>\<open>logging\<close> prints for it.
\<close>

record LogRecord =
  logger_name :: string
  levelno :: int
  msg :: string
  exc_info :: "string option option"

text \<open>
  The interpreter state the program sees: the logger registry, the exception being handled
  (if any), and every record that passed a logger together with the handlers it was
  handed to, in order and oldest record first; when a handler raised, it is the last of
  its list. The markup parser of \<^verbatim>\<open>rich\<close> is not part of the repository: whether it
  raises \<^verbatim>\<open>MarkupError\<close> on a text is a parameter of the state.
\<close>

record world =
  loggerDict :: "string \<rightharpoonup> logger"
  exc :: "string option"
  emitted :: "(LogRecord \<times> handler list) list"
  markup_error :: "string \<Rightarrow> bool"

definition canon :: "string \<Rightarrow> string" where
  "canon nm = (if nm = [] then ''root'' else nm)"

definition pristine :: "string \<Rightarrow> logger" where
  "pristine nm =
    \<lparr>lg_level = (if nm = ''root'' then WARNING else NOTSET), handlers = [], propagate = True\<rparr>"

definition the_logger :: "world \<Rightarrow> string \<Rightarrow> logger" where
  "the_logger w nm = (case loggerDict w nm of Some l \<Rightarrow> l | None \<Rightarrow> pristine nm)"

definition getLogger :: "string \<Rightarrow> world \<Rightarrow> string \<times> world" where
  "getLogger nm w =
    (let r = canon nm in
     (r, w\<lparr>loggerDict := (loggerDict w)(r \<mapsto> the_logger w r)\<rparr>))"

definition setLevel :: "string \<Rightarrow> int \<Rightarrow> world \<Rightarrow> world" where
  "setLevel r l w = w\<lparr>loggerDict := (loggerDict w)(r \<mapsto> (the_logger w r)\<lparr>lg_level := l\<rparr>)\<rparr>"

definition addHandler :: "string \<Rightarrow> handler \<Rightarrow> world \<Rightarrow> world" where
  "addHandler r h w =
    w\<lparr>loggerDict := (loggerDict w)(r \<mapsto> (the_logger w r)\<lparr>handlers := handlers (the_logger w r) @ [h]\<rparr>)\<rparr>"

definition set_propagate :: "string \<Rightarrow> bool \<Rightarrow> world \<Rightarrow> world" where
  "set_propagate r b w = w\<lparr>loggerDict := (loggerDict w)(r \<mapsto> (the_logger w r)\<lparr>propagate := b\<rparr>)\<rparr>"

definition handler_setLevel :: "int \<Rightarrow> handler \<Rightarrow> handler" where
  "handler_setLevel l h =
    (case h of
       RichHandler t lv p m tb _ \<Rightarrow> RichHandler t lv p m tb l
     | OtherHandler g _ \<Rightarrow> OtherHandler g l)"

definition getEffectiveLevel :: "world \<Rightarrow> string \<Rightarrow> int" where
  "getEffectiveLevel w r =
    (if lg_level (the_logger w r) \<noteq> 0 then lg_level (the_logger w r)
     else if r = ''root'' then NOTSET
     else lg_level (the_logger w ''root''))"

definition isEnabledFor :: "world \<Rightarrow> string \<Rightarrow> int \<Rightarrow> bool" where
  "isEnabledFor w r l = (getEffectiveLevel w r \<le> l)"

definition lastResort :: handler where
  "lastResort = OtherHandler ''lastResort'' WARNING"

definition chain_handlers :: "world \<Rightarrow> string \<Rightarrow> handler list" where
  "chain_handlers w r =
    handlers (the_logger w r) @
    (if propagate (the_logger w r) \<and> r \<noteq> ''root'' then handlers (the_logger w ''root'') else [])"

definition callHandlers :: "world \<Rightarrow> string \<Rightarrow> int \<Rightarrow> handler list" where
  "callHandlers w r l =
    (if chain_handlers w r = [] then (if h_level lastResort \<le> l then [lastResort] else [])
     else filter (\<lambda>h. h_level h \<le> l) (chain_handlers w r))"

text \<open>
  \<^verbatim>\<open>Formatter.format\<close> with the default format: the message, and after it, on a line of
  its own, the text of the exception information when the record has any. The triple of
  \<^verbatim>\<open>None\<close>s counts as exception information and is printed as \<^verbatim>\<open>NoneType: None\<close>.
\<close>

definition newline :: char where
  "newline = CHR 0x0A"

definition Formatter_format :: "LogRecord \<Rightarrow> string" where
  "Formatter_format r =
    (let s = (if msg r \<noteq> [] \<and> last (msg r) = newline then msg r else msg r @ [newline]) in
     case exc_info r of
       None \<Rightarrow> msg r
     | Some None \<Rightarrow> s @ ''NoneType: None''
     | Some (Some e) \<Rightarrow> s @ e)"

text \<open>
  The text that \<^verbatim>\<open>RichHandler.emit\<close> renders: the formatted record, except that with
  \<^verbatim>\<open>rich_tracebacks\<close> and a real exception the traceback is rendered apart and the text
  is the message alone. With \<^verbatim>\<open>markup\<close> on, the text goes through the markup parser
  outside any \<^verbatim>\<open>try\<close>.
\<close>

definition RichHandler_message :: "bool \<Rightarrow> LogRecord \<Rightarrow> string" where
  "RichHandler_message tb r =
    (case exc_info r of
       Some (Some e) \<Rightarrow> (if tb then msg r else Formatter_format r)
     | _ \<Rightarrow> Formatter_format r)"

definition handler_raises :: "world \<Rightarrow> handler \<Rightarrow> LogRecord \<Rightarrow> bool" where
  "handler_raises w h r =
    (case h of
       RichHandler t lv p m tb l \<Rightarrow> m \<and> markup_error w (RichHandler_message tb r)
     | OtherHandler g l \<Rightarrow> False)"

text \<open>
  The loop of \<^verbatim>\<open>callHandlers\<close> over the admitted handlers: it stops at the first one that
  raises. The result is the exception, if any, and the handlers that were handed the
  record.
\<close>

fun handle_all :: "world \<Rightarrow> LogRecord \<Rightarrow> handler list \<Rightarrow> py_error option \<times> handler list" where
  "handle_all w r [] = (None, [])"
| "handle_all w r (h # hs) =
    (if handler_raises w h r then (Some MarkupError, [h])
     else (case handle_all w r hs of (e, handed) \<Rightarrow> (e, h # handed)))"

definition Logger_log :: "string \<Rightarrow> int \<Rightarrow> string \<Rightarrow> bool \<Rightarrow> world \<Rightarrow> py_error option \<times> world" where
  "Logger_log r l text want_exc w =
    (if isEnabledFor w r l
     then (let rcd = \<lparr>logger_name = r, levelno = l, msg = text,
                       exc_info = (if want_exc then Some (exc w) else None)\<rparr>
           in case handle_all w rcd (callHandlers w r l) of
                (e, handed) \<Rightarrow> (e, w\<lparr>emitted := emitted w @ [(rcd, handed)]\<rparr>))
     else (None, w))"

section \<open>The class \<^verbatim>\<open>RichLogger\<close>\<close>

text \<open>
  An instance is its attribute dictionary. An attribute holds the console, the reference
  to the named logger, or one of the bound methods that \<^verbatim>\<open>_attach_log_methods\<close>
  creates, which carries its own entry of the table (the default argument \<^verbatim>\<open>props\<close>).
\<close>

datatype attr = Console | LoggerRef string | BoundLogMethod props

type_synonym RichLogger = "string \<rightharpoonup> attr"

text \<open>
  \<^verbatim>\<open>setattr(self, name, value)\<close>: three names are data descriptors of every instance and
  refuse the value; any other name lands in the instance dictionary.
\<close>

definition setattr :: "RichLogger \<Rightarrow> string \<Rightarrow> attr \<Rightarrow> py_error option \<times> RichLogger" where
  "setattr self n v =
    (if n = ''__class__'' \<or> n = ''__dict__'' then (Some TypeError, self)
     else if n = ''__weakref__'' then (Some AttributeError, self)
     else (None, self(n \<mapsto> v)))"

text \<open>\<^verbatim>\<open>str.upper\<close> on ASCII text, and the format specification \<^verbatim>\<open><8\<close>.\<close>

definition upper_char :: "char \<Rightarrow> char" where
  "upper_char c =
    (case map_of (zip ''abcdefghijklmnopqrstuvwxyz'' ''ABCDEFGHIJKLMNOPQRSTUVWXYZ'') c of
       Some u \<Rightarrow> u
     | None \<Rightarrow> c)"

definition upper :: "string \<Rightarrow> string" where
  "upper s = map upper_char s"

definition ljust8 :: "string \<Rightarrow> string" where
  "ljust8 s = s @ replicate (8 - length s) CHR '' ''"

text \<open>
  The specification's reading of the test on the label: compared without regard to case,
  the label is the word DEBUG. Written out letter by letter, without \<^verbatim>\<open>upper\<close>.
\<close>

definition equals_DEBUG_ignoring_case :: "string \<Rightarrow> bool" where
  "equals_DEBUG_ignoring_case s =
    (length s = 5
     \<and> (s ! 0 = CHR ''D'' \<or> s ! 0 = CHR ''d'')
     \<and> (s ! 1 = CHR ''E'' \<or> s ! 1 = CHR ''e'')
     \<and> (s ! 2 = CHR ''B'' \<or> s ! 2 = CHR ''b'')
     \<and> (s ! 3 = CHR ''U'' \<or> s ! 3 = CHR ''u'')
     \<and> (s ! 4 = CHR ''G'' \<or> s ! 4 = CHR ''g''))"

text \<open>
  \<^verbatim>\<open>RichLogger.log\<close> (lines 206--221). \<^verbatim>\<open>self.logger\<close> is read from the instance
  dictionary; only a logger has the \<^verbatim>\<open>log\<close> method that the call needs, and what
  that method raises reaches the caller. The source
  gives defaults for the level (\<^verbatim>\<open>DEBUG\<close>) and the colour (\<^verbatim>\<open>white\<close>); every call
  in the source passes both, and so does the model.
\<close>

definition log :: "RichLogger \<Rightarrow> string \<Rightarrow> string \<Rightarrow> int \<Rightarrow> string \<Rightarrow> world \<Rightarrow> py_error option \<times> world" where
  "log self message lab lev col w =
    (let rich_label = ''['' @ col @ '']'' @ ljust8 lab @ ''[/]'' in
     case self ''logger'' of
       None \<Rightarrow> (Some AttributeError, w)
     | Some Console \<Rightarrow> (Some TypeError, w)
     | Some (BoundLogMethod p) \<Rightarrow> (Some AttributeError, w)
     | Some (LoggerRef r) \<Rightarrow>
         Logger_log r lev (rich_label @ '' '' @ message) (upper lab = ''DEBUG'') w)"

text \<open>
  The closure \<^verbatim>\<open>log_method\<close> (lines 236--242). \<^verbatim>\<open>self.log\<close> is the class's method
  unless the instance dictionary has an entry of that name, which then takes the call and
  rejects its arguments.
\<close>

definition log_method :: "RichLogger \<Rightarrow> string \<Rightarrow> props \<Rightarrow> world \<Rightarrow> py_error option \<times> world" where
  "log_method self message prp w =
    (case self ''log'' of
       None \<Rightarrow> log self message (label prp) (level prp) (color prp) w
     | Some a \<Rightarrow> (Some TypeError, w))"

text \<open>\<^verbatim>\<open>_attach_log_methods\<close> (lines 226--248): the loop over the table's items.\<close>

fun attach_loop :: "RichLogger \<Rightarrow> (string \<times> props) list \<Rightarrow> py_error option \<times> RichLogger" where
  "attach_loop self [] = (None, self)"
| "attach_loop self ((method_name, properties) # rest) =
    (case setattr self method_name (BoundLogMethod properties) of
       (Some e, self') \<Rightarrow> (Some e, self')
     | (None, self') \<Rightarrow> attach_loop self' rest)"

definition attach_log_methods :: "(string \<times> props) list \<Rightarrow> RichLogger \<Rightarrow> py_error option \<times> RichLogger" where
  "attach_log_methods tbl self =
    (case self ''LOG_CATEGORIES'' of
       None \<Rightarrow> attach_loop self tbl
     | Some a \<Rightarrow> (Some AttributeError, self))"

text \<open>\<^verbatim>\<open>RichLogger.__init__\<close> (lines 172--201), run on the instance \<open>self\<close>.\<close>

definition new_handler :: handler where
  "new_handler = handler_setLevel NOTSET (RichHandler True False True True True NOTSET)"

definition init :: "(string \<times> props) list \<Rightarrow> RichLogger \<Rightarrow> string \<Rightarrow> world \<Rightarrow> py_error option \<times> RichLogger \<times> world" where
  "init tbl self nm w =
    (let self1 = self(''console'' \<mapsto> Console);
         (r, w1) = getLogger nm w;
         self2 = self1(''logger'' \<mapsto> LoggerRef r);
         w2 = setLevel r DEBUG w1;
         w3 = (if handlers (the_logger w2 r) = []
               then set_propagate r False (addHandler r new_handler w2)
               else w2)
     in case self2 ''_attach_log_methods'' of
          Some a \<Rightarrow> (Some TypeError, self2, w3)
        | None \<Rightarrow> (case attach_log_methods tbl self2 of (e, self3) \<Rightarrow> (e, self3, w3)))"

text \<open>\<^verbatim>\<open>RichLogger(name)\<close>: a fresh instance, then \<^verbatim>\<open>__init__\<close>.\<close>

definition new_RichLogger :: "(string \<times> props) list \<Rightarrow> string \<Rightarrow> world \<Rightarrow> py_error option \<times> RichLogger \<times> world" where
  "new_RichLogger tbl nm w = init tbl Map.empty nm w"

text \<open>
  The call \<^verbatim>\<open>self.<n>(message)\<close> of a caller: attribute lookup in the instance
  dictionary, then in the class body; a name found in neither raises
  \<^verbatim>\<open>AttributeError\<close>. An instance also has the attributes that every object of a plain
  class has without the class body naming them (Python 3.13, the version the module was
  tested with); what calling one of those does is left outside the model (the result
  \<open>None\<close>). \<^verbatim>\<open>__init__\<close> is not among them: the class defines it.
\<close>

definition object_attrs :: "string list" where
  "object_attrs =
    [''__class__'', ''__delattr__'', ''__dict__'', ''__dir__'', ''__doc__'', ''__eq__'',
     ''__firstlineno__'', ''__format__'', ''__ge__'', ''__getattribute__'', ''__getstate__'',
     ''__gt__'', ''__hash__'', ''__init_subclass__'', ''__le__'', ''__lt__'', ''__module__'',
     ''__ne__'', ''__new__'', ''__reduce__'', ''__reduce_ex__'', ''__repr__'', ''__setattr__'',
     ''__sizeof__'', ''__static_attributes__'', ''__str__'', ''__subclasshook__'',
     ''__weakref__'']"

definition call :: "(string \<times> props) list \<Rightarrow> RichLogger \<Rightarrow> string \<Rightarrow> string \<Rightarrow> world \<Rightarrow> (py_error option \<times> RichLogger \<times> world) option" where
  "call tbl self n message w =
    (case self n of
       Some (BoundLogMethod p) \<Rightarrow>
         (case log_method self message p w of (e, w') \<Rightarrow> Some (e, self, w'))
     | Some Console \<Rightarrow> Some (Some TypeError, self, w)
     | Some (LoggerRef r) \<Rightarrow> Some (Some TypeError, self, w)
     | None \<Rightarrow>
         (if n = ''log'' \<or> n = ''_attach_log_methods'' \<or> n = ''LOG_CATEGORIES''
          then Some (Some TypeError, self, w)
          else if n = ''__init__'' then Some (init tbl self message w)
          else if n \<in> set object_attrs then None
          else Some (Some AttributeError, self, w)))"

section \<open>Scenarios\<close>

text \<open>
  The example interpreters need a markup parser. This one follows the tag matching of
  \<^verbatim>\<open>rich.markup\<close>: a tag is a bracket, one of the characters a to z, \<^verbatim>\<open>#\<close>, \<^verbatim>\<open>/\<close> or
  \<^verbatim>\<open>@\<close>, then anything but an opening bracket up to the first closing bracket; an odd
  number of backslashes before it makes it plain text. An opening tag is pushed on a
  stack; \<^verbatim>\<open>[/]\<close> pops the innermost tag, \<^verbatim>\<open>[/name]\<close> removes the innermost tag of that
  name, and either is an error when there is no such tag. Tags still open at the end are
  closed silently. Style names are compared as written, trimmed of blanks (\<^verbatim>\<open>rich\<close>
  also normalises style definitions of several words), and the handlers of \<^verbatim>\<open>@\<close> tags
  are not looked at.
\<close>

definition tag_start :: "char \<Rightarrow> bool" where
  "tag_start c = (c \<in> set ''abcdefghijklmnopqrstuvwxyz#/@'')"

definition trim :: "string \<Rightarrow> string" where
  "trim s = rev (dropWhile (\<lambda>c. c = CHR '' '') (rev (dropWhile (\<lambda>c. c = CHR '' '') s)))"

fun pop_style :: "string \<Rightarrow> string list \<Rightarrow> string list option" where
  "pop_style style_name [] = None"
| "pop_style style_name (t # ts) =
    (if t = style_name then Some ts
     else (case pop_style style_name ts of None \<Rightarrow> None | Some ts' \<Rightarrow> Some (t # ts')))"

definition apply_tag :: "string list \<Rightarrow> string \<Rightarrow> string list option" where
  "apply_tag style_stack tag_text =
    (let nm = takeWhile (\<lambda>c. c \<noteq> CHR ''='') tag_text in
     if take 1 nm = ''/''
     then (let style_name = trim (drop 1 nm) in
           if style_name = [] then (case style_stack of [] \<Rightarrow> None | t # ts \<Rightarrow> Some ts)
           else pop_style style_name style_stack)
     else Some (trim nm # style_stack))"

text \<open>
  The scan is either in plain text, having just read some backslashes, or inside a
  possible tag, of which it holds whether it is escaped, the text so far and the
  backslashes at its end.
\<close>

datatype scan_mode = Plain nat | Tag bool string nat

fun tag_scan :: "string list \<Rightarrow> scan_mode \<Rightarrow> string \<Rightarrow> bool" where
  "tag_scan style_stack m [] = False"
| "tag_scan style_stack (Plain bs) (c # cs) =
    (if c = CHR 0x5C then tag_scan style_stack (Plain (Suc bs)) cs
     else if c = CHR ''['' then tag_scan style_stack (Tag (odd bs) [] 0) cs
     else tag_scan style_stack (Plain 0) cs)"
| "tag_scan style_stack (Tag esc tag_text bs) (c # cs) =
    (if c = CHR ''['' then tag_scan style_stack (Tag (odd bs) [] 0) cs
     else if tag_text = [] \<and> \<not> tag_start c
       then tag_scan style_stack (Plain (if c = CHR 0x5C then 1 else 0)) cs
     else if c = CHR '']''
       then (if esc then tag_scan style_stack (Plain 0) cs
             else (case apply_tag style_stack tag_text of
                     None \<Rightarrow> True
                   | Some style_stack' \<Rightarrow> tag_scan style_stack' (Plain 0) cs))
     else tag_scan style_stack (Tag esc (tag_text @ [c]) (if c = CHR 0x5C then Suc bs else 0)) cs)"

definition unmatched_tag :: "string \<Rightarrow> bool" where
  "unmatched_tag s = tag_scan [] (Plain 0) s"

text \<open>An interpreter in which no logger has been configured and no exception is active.\<close>

definition fresh_world :: world where
  "fresh_world =
    \<lparr>loggerDict = Map.empty, exc = None, emitted = [], markup_error = unmatched_tag\<rparr>"

text \<open>
  An interpreter in which another part of the program has given the logger \<^verbatim>\<open>demo\<close> a
  handler that admits errors only.
\<close>

definition errors_only_world :: world where
  "errors_only_world =
    \<lparr>loggerDict = [''demo'' \<mapsto> \<lparr>lg_level = NOTSET, handlers = [OtherHandler ''file'' ERROR],
                                 propagate = True\<rparr>],
     exc = None, emitted = [], markup_error = unmatched_tag\<rparr>"

text \<open>
  An interpreter in which another part of the program has already configured logging: the
  root logger has a handler (as after \<^verbatim>\<open>logging.basicConfig\<close>), and the logger
  \<^verbatim>\<open>demo\<close> has a handler of its own and still propagates, as loggers do by default.
\<close>

definition preconfigured_world :: world where
  "preconfigured_world =
    \<lparr>loggerDict = [''root'' \<mapsto> \<lparr>lg_level = WARNING, handlers = [OtherHandler ''stderr'' NOTSET], propagate = True\<rparr>,
                   ''demo'' \<mapsto> \<lparr>lg_level = NOTSET, handlers = [OtherHandler ''file'' NOTSET], propagate = True\<rparr>],
     exc = None, emitted = [], markup_error = unmatched_tag\<rparr>"

text \<open>The table after a caller has added a category named \<^verbatim>\<open>log\<close>.\<close>

definition extended_table :: "(string \<times> props) list" where
  "extended_table = LOG_CATEGORIES @ [(''log'', \<lparr>label = ''LOG'', color = ''white'', level = INFO\<rparr>)]"

section \<open>Facts about the environment and the constructor\<close>

lemma map_of_rev_distinct:
  "distinct (map fst xs) \<Longrightarrow> map_of (rev xs) = map_of xs"
proof (induction xs)
  case Nil
  then show ?case by simp
next
  case (Cons a xs)
  obtain k v where a: "a = (k, v)" by (cases a)
  from Cons.prems a have "k \<notin> dom (map_of xs)" by (simp add: dom_map_of_conv_image_fst)
  then have "map_of xs k = None" by blast
  with Cons a show ?case
    by (auto simp: map_add_def fun_eq_iff split: option.splits)
qed

text \<open>The loop sets one attribute per entry, later entries over earlier ones.\<close>

lemma attach_loop_ok:
  "\<forall>n \<in> fst ` set tbl. n \<noteq> ''__class__'' \<and> n \<noteq> ''__dict__'' \<and> n \<noteq> ''__weakref__'' \<Longrightarrow>
   attach_loop self tbl =
     (None, self ++ map_of (rev (map (\<lambda>(n, p). (n, BoundLogMethod p)) tbl)))"
proof (induction tbl arbitrary: self)
  case Nil
  then show ?case by simp
next
  case (Cons a tbl)
  obtain n p where a: "a = (n, p)" by (cases a)
  let ?f = "\<lambda>(n, p). (n, BoundLogMethod p)"
  from Cons.prems a
  have ok: "setattr self n (BoundLogMethod p) = (None, self(n \<mapsto> BoundLogMethod p))"
    by (simp add: setattr_def)
  from Cons.prems
  have rest: "\<forall>n \<in> fst ` set tbl. n \<noteq> ''__class__'' \<and> n \<noteq> ''__dict__'' \<and> n \<noteq> ''__weakref__''"
    by simp
  have "attach_loop self (a # tbl) = attach_loop (self(n \<mapsto> BoundLogMethod p)) tbl"
    by (simp only: a attach_loop.simps ok prod.case option.case)
  also have "\<dots> = (None, self(n \<mapsto> BoundLogMethod p) ++ map_of (rev (map ?f tbl)))"
    by (rule Cons.IH [OF rest])
  also have "self(n \<mapsto> BoundLogMethod p) ++ map_of (rev (map ?f tbl)) =
      self ++ map_of (rev (map ?f (a # tbl)))"
    by (simp add: a map_add_assoc [symmetric])
  finally show ?case .
qed

text \<open>What the constructor does to the registry, whatever the table.\<close>

lemma init_world:
  "init tbl self nm w = (e, rl, w1) \<Longrightarrow>
   the_logger w1 (canon nm) =
     \<lparr>lg_level = DEBUG,
      handlers = (if handlers (the_logger w (canon nm)) = [] then [new_handler]
                  else handlers (the_logger w (canon nm))),
      propagate = (if handlers (the_logger w (canon nm)) = [] then False
                   else propagate (the_logger w (canon nm)))\<rparr>
   \<and> exc w1 = exc w \<and> emitted w1 = emitted w \<and> markup_error w1 = markup_error w"
  by (auto simp: init_def getLogger_def setLevel_def addHandler_def set_propagate_def
      the_logger_def Let_def split: option.splits prod.splits if_splits)

text \<open>The attributes of a new instance, for a table that sets no refused name.\<close>

lemma new_RichLogger_attrs:
  assumes ok: "\<forall>n \<in> fst ` set tbl. n \<noteq> ''__class__'' \<and> n \<noteq> ''__dict__'' \<and> n \<noteq> ''__weakref__''"
    and dist: "distinct (map fst tbl)"
    and new: "new_RichLogger tbl nm w = (e, rl, w1)"
  shows "e = None"
    and "rl n = (case map_of tbl n of
                   Some p \<Rightarrow> Some (BoundLogMethod p)
                 | None \<Rightarrow> [''console'' \<mapsto> Console, ''logger'' \<mapsto> LoggerRef (canon nm)] n)"
proof -
  let ?f = "\<lambda>(n, p). (n, BoundLogMethod p)"
  let ?self2 = "[''console'' \<mapsto> Console, ''logger'' \<mapsto> LoggerRef (canon nm)]"
  have loop: "attach_loop ?self2 tbl = (None, ?self2 ++ map_of (rev (map ?f tbl)))"
    by (rule attach_loop_ok [OF ok])
  from new loop have res: "e = None \<and> rl = ?self2 ++ map_of (rev (map ?f tbl))"
    by (auto simp: new_RichLogger_def init_def attach_log_methods_def getLogger_def Let_def
        split: prod.splits)
  then show "e = None" by simp
  have "map fst (map ?f tbl) = map fst tbl" by (induction tbl) auto
  with dist have "distinct (map fst (map ?f tbl))" by (simp only:)
  then have "map_of (rev (map ?f tbl)) = map_of (map ?f tbl)"
    by (rule map_of_rev_distinct)
  moreover have "map_of (map ?f tbl) n = map_option BoundLogMethod (map_of tbl n)"
    by (induction tbl) auto
  ultimately show "rl n = (case map_of tbl n of
                   Some p \<Rightarrow> Some (BoundLogMethod p)
                 | None \<Rightarrow> ?self2 n)"
    using res by (simp add: map_add_def split: option.splits)
qed

lemma LOG_CATEGORIES_names:
  "distinct (map fst LOG_CATEGORIES)"
  "\<forall>n \<in> fst ` set LOG_CATEGORIES. n \<noteq> ''__class__'' \<and> n \<noteq> ''__dict__'' \<and> n \<noteq> ''__weakref__''"
  "map_of LOG_CATEGORIES ''log'' = None"
  "map_of LOG_CATEGORIES ''logger'' = None"
  by (simp_all add: LOG_CATEGORIES_def)

lemma LOG_CATEGORIES_levels:
  "(c, p) \<in> set LOG_CATEGORIES \<Longrightarrow> DEBUG \<le> level p"
  by (auto simp: LOG_CATEGORIES_def DEBUG_def INFO_def WARNING_def ERROR_def)

text \<open>A bound method of an instance whose \<^verbatim>\<open>log\<close> and \<^verbatim>\<open>logger\<close> are intact.\<close>

lemma call_bound_method:
  assumes "self c = Some (BoundLogMethod p)" and "self ''log'' = None"
    and "self ''logger'' = Some (LoggerRef r)"
  shows "call tbl self c message w =
    (case Logger_log r (level p)
        (''['' @ color p @ '']'' @ ljust8 (label p) @ ''[/]'' @ '' '' @ message)
        (upper (label p) = ''DEBUG'') w of
       (e, w') \<Rightarrow> Some (e, self, w'))"
  using assms by (simp add: call_def log_method_def log_def)

lemma default_instance:
  assumes new: "new_RichLogger LOG_CATEGORIES nm w = (e, rl, w1)"
  shows "e = None" and "rl ''log'' = None" and "rl ''logger'' = Some (LoggerRef (canon nm))"
    and "(c, p) \<in> set LOG_CATEGORIES \<Longrightarrow> rl c = Some (BoundLogMethod p)"
proof -
  note attrs = new_RichLogger_attrs [OF LOG_CATEGORIES_names(2) LOG_CATEGORIES_names(1) new]
  show "e = None" by (rule attrs(1))
  show "rl ''log'' = None" by (simp add: attrs(2) LOG_CATEGORIES_names)
  show "rl ''logger'' = Some (LoggerRef (canon nm))" by (simp add: attrs(2) LOG_CATEGORIES_names)
  show "rl c = Some (BoundLogMethod p)" if "(c, p) \<in> set LOG_CATEGORIES"
    using that by (simp add: attrs(2) LOG_CATEGORIES_names(1))
qed

lemma enabled_after_init:
  assumes "init tbl self nm w = (e, rl, w1)" and "DEBUG \<le> l"
  shows "isEnabledFor (w1\<lparr>exc := x\<rparr>) (canon nm) l"
  using init_world [OF assms(1)] assms(2)
  by (simp add: isEnabledFor_def getEffectiveLevel_def the_logger_def DEBUG_def)

lemma Logger_log_enabled:
  "isEnabledFor w r l \<Longrightarrow>
   Logger_log r l text b w =
     (case handle_all w \<lparr>logger_name = r, levelno = l, msg = text,
                          exc_info = (if b then Some (exc w) else None)\<rparr> (callHandlers w r l) of
        (e, handed) \<Rightarrow>
          (e, w\<lparr>emitted := emitted w @
                [(\<lparr>logger_name = r, levelno = l, msg = text,
                   exc_info = (if b then Some (exc w) else None)\<rparr>, handed)]\<rparr>))"
  by (simp add: Logger_log_def Let_def)

text \<open>What the handlers do depends on the markup parser alone.\<close>

lemma handler_raises_exc:
  "handler_raises (w\<lparr>exc := x\<rparr>) h r = handler_raises w h r"
  by (simp add: handler_raises_def split: handler.splits)

lemma handle_all_exc:
  "handle_all (w\<lparr>exc := x\<rparr>) r hs = handle_all w r hs"
  by (induction hs) (simp_all add: handler_raises_exc)

lemma handle_all_no_error:
  "\<forall>h \<in> set (snd (handle_all w r hs)). \<not> handler_raises w h r \<Longrightarrow>
   fst (handle_all w r hs) = None"
  by (induction hs) (auto split: prod.splits if_splits)

lemma handle_all_single:
  "handle_all w r [h] = (if handler_raises w h r then Some MarkupError else None, [h])"
  by simp

lemma new_handler_raises:
  "handler_raises w new_handler r = markup_error w (RichHandler_message True r)"
  by (simp add: handler_raises_def new_handler_def handler_setLevel_def)

lemma init_world_eq:
  assumes "init tbl self nm w = (e, rl, w1)"
  shows "w1 = w\<lparr>loggerDict := (loggerDict w)(canon nm \<mapsto>
     \<lparr>lg_level = DEBUG,
      handlers = (if handlers (the_logger w (canon nm)) = [] then [new_handler]
                  else handlers (the_logger w (canon nm))),
      propagate = (if handlers (the_logger w (canon nm)) = [] then False
                   else propagate (the_logger w (canon nm)))\<rparr>)\<rparr>"
proof -
  obtain l hs pr where L: "the_logger w (canon nm) = \<lparr>lg_level = l, handlers = hs, propagate = pr\<rparr>"
    by (cases "the_logger w (canon nm)") auto
  have "snd (snd (init tbl self nm w)) = w\<lparr>loggerDict := (loggerDict w)(canon nm \<mapsto>
     \<lparr>lg_level = DEBUG, handlers = (if hs = [] then [new_handler] else hs),
      propagate = (if hs = [] then False else pr)\<rparr>)\<rparr>"
    using L
    by (simp add: init_def getLogger_def setLevel_def addHandler_def set_propagate_def
        Let_def the_logger_def split: option.splits prod.splits)
  with assms L show ?thesis by simp
qed

lemma init_world_idem:
  assumes "init tbl self nm w = (e, rl, w1)" and "init tbl' self' nm w1 = (e', rl', w2)"
  shows "w2 = w1"
proof -
  let ?L = "\<lparr>lg_level = DEBUG,
      handlers = (if handlers (the_logger w (canon nm)) = [] then [new_handler]
                  else handlers (the_logger w (canon nm))),
      propagate = (if handlers (the_logger w (canon nm)) = [] then False
                   else propagate (the_logger w (canon nm)))\<rparr>"
  have "loggerDict w1 = (loggerDict w)(canon nm \<mapsto> ?L)"
    using arg_cong [OF init_world_eq [OF assms(1)], of loggerDict] by simp
  then have D: "loggerDict w1 (canon nm) = Some ?L" by simp
  then have L: "the_logger w1 (canon nm) = ?L" by (simp add: the_logger_def)
  have "w2 = w1\<lparr>loggerDict := (loggerDict w1)(canon nm \<mapsto> ?L)\<rparr>"
    by (subst init_world_eq [OF assms(2)]) (simp add: L)
  also have "\<dots> = w1" using D by (simp add: fun_upd_idem)
  finally show ?thesis .
qed

lemma callHandlers_after_init:
  assumes "init tbl self nm w = (e, rl, w1)" and "handlers (the_logger w (canon nm)) = []"
    and "DEBUG \<le> l"
  shows "callHandlers (w1\<lparr>exc := x\<rparr>) (canon nm) l = [new_handler]"
  using init_world [OF assms(1)] assms(2,3)
  by (simp add: callHandlers_def chain_handlers_def the_logger_def new_handler_def
      handler_setLevel_def NOTSET_def DEBUG_def)

lemma init_emitted: "init tbl self nm w = (e, rl, w1) \<Longrightarrow> emitted w1 = emitted w"
  using init_world by blast

lemma init_no_error:
  assumes "self ''_attach_log_methods'' = None" and "self ''LOG_CATEGORIES'' = None"
    and "\<forall>n \<in> fst ` set tbl. n \<noteq> ''__class__'' \<and> n \<noteq> ''__dict__'' \<and> n \<noteq> ''__weakref__''"
  shows "fst (init tbl self nm w) = None"
  using assms(1,2)
  by (simp add: init_def Let_def attach_log_methods_def attach_loop_ok [OF assms(3)]
      split: prod.splits)

lemma extended_table_names:
  "distinct (map fst extended_table)"
  "\<forall>n \<in> fst ` set extended_table. n \<noteq> ''__class__'' \<and> n \<noteq> ''__dict__'' \<and> n \<noteq> ''__weakref__''"
  by (simp_all add: extended_table_def LOG_CATEGORIES_def)

text \<open>
  When the table is a proper dictionary that sets no refused name and has no entry named
  \<^verbatim>\<open>log\<close> or \<^verbatim>\<open>logger\<close>, the method generated for an entry hands the message and
  that entry's label, level and colour to \<^verbatim>\<open>log\<close>.
\<close>

lemma generated_method_forwards_own_entry:
  assumes ok: "\<forall>n \<in> fst ` set tbl. n \<noteq> ''__class__'' \<and> n \<noteq> ''__dict__'' \<and> n \<noteq> ''__weakref__''"
    and dist: "distinct (map fst tbl)"
    and nolog: "''log'' \<notin> fst ` set tbl"
    and new: "new_RichLogger tbl nm w = (e, rl, w1)"
    and ent: "(c, p) \<in> set tbl"
  shows "e = None \<and> rl c = Some (BoundLogMethod p)
    \<and> call tbl rl c message w' =
        (case log rl message (label p) (level p) (color p) w' of (e', w'') \<Rightarrow> Some (e', rl, w''))"
proof -
  note attrs = new_RichLogger_attrs [OF ok dist new]
  from nolog have "map_of tbl ''log'' = None" by (simp add: map_of_eq_None_iff)
  then have l: "rl ''log'' = None" by (simp add: attrs(2))
  from dist ent have "map_of tbl c = Some p" by simp
  then have m: "rl c = Some (BoundLogMethod p)" by (simp add: attrs(2))
  show ?thesis using attrs(1) l m by (simp add: call_def log_method_def)
qed

text \<open>The test of the source, \<^verbatim>\<open>label.upper() in {"DEBUG"}\<close>, is the specification's.\<close>

lemma upper_char_DEBUG:
  "upper_char c = CHR ''D'' \<longleftrightarrow> c = CHR ''D'' \<or> c = CHR ''d''"
  "upper_char c = CHR ''E'' \<longleftrightarrow> c = CHR ''E'' \<or> c = CHR ''e''"
  "upper_char c = CHR ''B'' \<longleftrightarrow> c = CHR ''B'' \<or> c = CHR ''b''"
  "upper_char c = CHR ''U'' \<longleftrightarrow> c = CHR ''U'' \<or> c = CHR ''u''"
  "upper_char c = CHR ''G'' \<longleftrightarrow> c = CHR ''G'' \<or> c = CHR ''g''"
  by (auto simp: upper_char_def split: if_splits)

lemma upper_is_DEBUG:
  "upper s = ''DEBUG'' \<longleftrightarrow> equals_DEBUG_ignoring_case s"
proof
  assume "upper s = ''DEBUG''"
  then obtain a b c d e where s: "s = [a, b, c, d, e]"
    and u: "upper_char a = CHR ''D''" "upper_char b = CHR ''E''" "upper_char c = CHR ''B''"
      "upper_char d = CHR ''U''" "upper_char e = CHR ''G''"
    by (auto simp: upper_def map_eq_Cons_conv)
  from u show "equals_DEBUG_ignoring_case s"
    by (simp add: s equals_DEBUG_ignoring_case_def upper_char_DEBUG)
next
  assume a: "equals_DEBUG_ignoring_case s"
  then have "length s = 5" by (simp add: equals_DEBUG_ignoring_case_def)
  then obtain a b c d e where s: "s = [a, b, c, d, e]"
    by (auto simp: length_Suc_conv eval_nat_numeral)
  from a show "upper s = ''DEBUG''"
    by (simp add: s equals_DEBUG_ignoring_case_def upper_def upper_char_DEBUG)
qed

lemma isEnabledFor_exc:
  "isEnabledFor (w\<lparr>exc := x\<rparr>) r l = isEnabledFor w r l"
  by (simp add: isEnabledFor_def getEffectiveLevel_def the_logger_def)

lemma callHandlers_exc:
  "callHandlers (w\<lparr>exc := x\<rparr>) r l = callHandlers w r l"
  by (simp add: callHandlers_def chain_handlers_def the_logger_def)

text \<open>
  A category call on a new instance: one record, handed to the admitted handlers until
  one of them raises.
\<close>

lemma call_constructed:
  assumes cat: "(c, p) \<in> set LOG_CATEGORIES"
    and new: "new_RichLogger LOG_CATEGORIES nm w = (e, rl, w1)"
    and r: "r = \<lparr>logger_name = canon nm, levelno = level p,
        msg = ''['' @ color p @ '']'' @ ljust8 (label p) @ ''[/]'' @ '' '' @ message,
        exc_info = (if upper (label p) = ''DEBUG'' then Some x else None)\<rparr>"
  shows "call LOG_CATEGORIES rl c message (w1\<lparr>exc := x\<rparr>) =
    Some (fst (handle_all w1 r (callHandlers w1 (canon nm) (level p))), rl,
          w1\<lparr>exc := x, emitted := emitted w1 @
            [(r, snd (handle_all w1 r (callHandlers w1 (canon nm) (level p))))]\<rparr>)"
proof -
  note inst = default_instance [OF new]
  have en: "isEnabledFor (w1\<lparr>exc := x\<rparr>) (canon nm) (level p)"
    using new LOG_CATEGORIES_levels [OF cat]
    by (auto simp: new_RichLogger_def intro: enabled_after_init)
  show ?thesis
    by (simp add: call_bound_method [OF inst(4) [OF cat] inst(2) inst(3)]
        Logger_log_enabled [OF en] handle_all_exc callHandlers_exc r split: prod.splits)
qed

text \<open>Construction in the interpreter without configured loggers.\<close>

lemma fresh_world_construction:
  assumes "new_RichLogger tbl nm fresh_world = (e, rl, w1)"
  shows "handlers (the_logger fresh_world (canon nm)) = []"
    and "markup_error w1 = unmatched_tag" and "emitted w1 = []"
  using init_world [OF assms [unfolded new_RichLogger_def]]
  by (simp_all add: the_logger_def fresh_world_def pristine_def)

lemmas scan_simps = unmatched_tag_def tag_start_def apply_tag_def trim_def newline_def
  RichHandler_message_def Formatter_format_def

lemma demo_call:
  assumes cat: "(c, p) \<in> set LOG_CATEGORIES"
    and new: "new_RichLogger LOG_CATEGORIES ''demo'' fresh_world = (e, rl, w1)"
    and r: "r = \<lparr>logger_name = ''demo'', levelno = level p,
        msg = ''['' @ color p @ '']'' @ ljust8 (label p) @ ''[/]'' @ '' '' @ message,
        exc_info = (if upper (label p) = ''DEBUG'' then Some x else None)\<rparr>"
  shows "call LOG_CATEGORIES rl c message (w1\<lparr>exc := x\<rparr>) =
    Some (if unmatched_tag (RichHandler_message True r) then Some MarkupError else None, rl,
          w1\<lparr>exc := x, emitted := [(r, [new_handler])]\<rparr>)"
proof -
  note fw = fresh_world_construction [OF new]
  have w1: "w1\<lparr>exc := exc w1\<rparr> = w1" by simp
  have hs: "callHandlers w1 (canon ''demo'') (level p) = [new_handler]"
    using callHandlers_after_init [OF new [unfolded new_RichLogger_def] fw(1)
        LOG_CATEGORIES_levels [OF cat], of "exc w1"]
    by (simp only: w1)
  have c: "canon ''demo'' = ''demo''" by (simp add: canon_def)
  show ?thesis
    using call_constructed [OF cat new refl, of message x]
    by (simp only: hs [unfolded c] handle_all_single fst_conv snd_conv new_handler_raises fw c r
        append_Nil)
qed

section \<open>The claims\<close>

text \<open>
  C2. The category table has exactly the fifteen categories of the specification, in the
  order of its list, and each entry's label, colour and severity are the recommended
  defaults (severity read off the Python level: 10 debug, 20 info, 30 warning, 40 error).
\<close>

theorem LOG_CATEGORIES_is_spec_table:
  "map descriptor_of LOG_CATEGORIES = map Some spec_default_categories
   \<and> length LOG_CATEGORIES = 15 \<and> distinct (map fst LOG_CATEGORIES)"
  by (simp add: LOG_CATEGORIES_def spec_default_categories_def descriptor_of_def
      INFO_def WARNING_def ERROR_def DEBUG_def)

text \<open>
  C1, as the code has it. For every category \<open>c\<close> of the table with entry \<open>p\<close>, on a
  \<^verbatim>\<open>RichLogger\<close> constructed for a name whose logger had no handler, the call
  \<open>c(message)\<close> adds exactly one record and hands it to exactly one handler, the
  \<^verbatim>\<open>RichHandler\<close> that the constructor attached. The record's text is the label, padded
  on the right with spaces to at least eight characters and wrapped in the entry's colour
  markup, then one space, then the message as it was given; its level is the entry's
  level. The call raises nothing when the markup parser accepts the text that the handler
  renders. This holds whether or not an exception is being handled at the time of the
  call.
\<close>

theorem category_call_emits_one_record:
  assumes cat: "(c, p) \<in> set LOG_CATEGORIES"
    and new: "new_RichLogger LOG_CATEGORIES nm w = (e, rl, w1)"
    and fresh: "handlers (the_logger w (canon nm)) = []"
  shows "e = None \<and>
    (\<exists>e' w2 r. call LOG_CATEGORIES rl c message (w1\<lparr>exc := x\<rparr>) = Some (e', rl, w2)
      \<and> emitted w2 = emitted w1 @ [(r, [new_handler])]
      \<and> msg r = ''['' @ color p @ '']'' @ label p @ replicate (8 - length (label p)) CHR '' ''
                 @ ''[/]'' @ '' '' @ message
      \<and> 8 \<le> length (label p @ replicate (8 - length (label p)) CHR '' '')
      \<and> levelno r = level p \<and> logger_name r = canon nm
      \<and> (\<not> markup_error w1 (RichHandler_message True r) \<longrightarrow> e' = None))"
proof -
  let ?r = "\<lparr>logger_name = canon nm, levelno = level p,
      msg = ''['' @ color p @ '']'' @ ljust8 (label p) @ ''[/]'' @ '' '' @ message,
      exc_info = (if upper (label p) = ''DEBUG'' then Some x else None)\<rparr>"
  have w1: "w1\<lparr>exc := exc w1\<rparr> = w1" by simp
  have hs: "callHandlers w1 (canon nm) (level p) = [new_handler]"
    using callHandlers_after_init [OF new [unfolded new_RichLogger_def] fresh
        LOG_CATEGORIES_levels [OF cat], of "exc w1"]
    by (simp only: w1)
  let ?e' = "if handler_raises w1 new_handler ?r then Some MarkupError else None"
  let ?w2 = "w1\<lparr>exc := x, emitted := emitted w1 @ [(?r, [new_handler])]\<rparr>"
  have "call LOG_CATEGORIES rl c message (w1\<lparr>exc := x\<rparr>) = Some (?e', rl, ?w2)"
    by (simp only: call_constructed [OF cat new refl] hs handle_all_single fst_conv snd_conv)
  moreover have "emitted ?w2 = emitted w1 @ [(?r, [new_handler])]" by simp
  moreover have "msg ?r = ''['' @ color p @ '']'' @ label p @
      replicate (8 - length (label p)) CHR '' '' @ ''[/]'' @ '' '' @ message"
    by (simp add: ljust8_def)
  moreover have "8 \<le> length (label p @ replicate (8 - length (label p)) CHR '' '')" by simp
  moreover have "levelno ?r = level p" "logger_name ?r = canon nm" by simp_all
  moreover have "\<not> markup_error w1 (RichHandler_message True ?r) \<longrightarrow> ?e' = None"
    by (simp add: new_handler_raises)
  ultimately show ?thesis using default_instance(1) [OF new] by blast
qed

theorem category_call_emits_one_record_witness:
  "(''metric'', \<lparr>label = ''METRIC'', color = ''cyan'', level = INFO\<rparr>) \<in> set LOG_CATEGORIES
   \<and> handlers (the_logger fresh_world (canon ''demo'')) = []
   \<and> (\<exists>rl w1 w2 r.
      new_RichLogger LOG_CATEGORIES ''demo'' fresh_world = (None, rl, w1)
      \<and> call LOG_CATEGORIES rl ''metric'' ''accepted=2 ignored=1 ratio=0.67'' (w1\<lparr>exc := None\<rparr>)
          = Some (None, rl, w2)
      \<and> emitted w2 = emitted w1 @ [(r, [new_handler])]
      \<and> msg r = ''[cyan]METRIC  [/] accepted=2 ignored=1 ratio=0.67''
      \<and> levelno r = 20)"
proof -
  let ?p = "\<lparr>label = ''METRIC'', color = ''cyan'', level = INFO\<rparr>"
  have cat: "(''metric'', ?p) \<in> set LOG_CATEGORIES" by (simp add: LOG_CATEGORIES_def)
  obtain e rl w1 where new: "new_RichLogger LOG_CATEGORIES ''demo'' fresh_world = (e, rl, w1)"
    by (cases "new_RichLogger LOG_CATEGORIES ''demo'' fresh_world")
  note fw = fresh_world_construction [OF new]
  from category_call_emits_one_record [OF cat new fw(1), of "''accepted=2 ignored=1 ratio=0.67''" None]
  obtain e' w2 r where res:
    "call LOG_CATEGORIES rl ''metric'' ''accepted=2 ignored=1 ratio=0.67'' (w1\<lparr>exc := None\<rparr>) = Some (e', rl, w2)"
    "emitted w2 = emitted w1 @ [(r, [new_handler])]"
    "msg r = ''[cyan]METRIC  [/] accepted=2 ignored=1 ratio=0.67''"
    "levelno r = 20"
    "\<not> markup_error w1 (RichHandler_message True r) \<longrightarrow> e' = None"
    and e: "e = None"
    by (auto simp: INFO_def eval_nat_numeral)
  have "\<not> markup_error w1 (RichHandler_message True r)"
  proof (cases "exc_info r")
    case None
    then show ?thesis by (simp add: fw(2) res(3) scan_simps)
  next
    case (Some i)
    then show ?thesis by (cases i) (simp_all add: fw(2) res(3) scan_simps)
  qed
  with res(5) have "e' = None" by simp
  with res e cat fw(1) new show ?thesis by blast
qed

text \<open>
  Two calls outside that statement. When the logger \<^verbatim>\<open>demo\<close> already has a handler that
  admits errors only, the constructor attaches nothing and the record of \<^verbatim>\<open>read\<close>
  reaches no handler. On a fresh logger, a message with a closing tag that nothing opened
  makes the handler raise \<^verbatim>\<open>MarkupError\<close>, which reaches the caller.
\<close>

theorem record_not_rendered_once:
  "(\<exists>rl w1 w2 r.
      new_RichLogger LOG_CATEGORIES ''demo'' errors_only_world = (None, rl, w1)
      \<and> call LOG_CATEGORIES rl ''read'' ''Loading dataset'' w1 = Some (None, rl, w2)
      \<and> emitted w2 = [(r, [])])
   \<and> (\<exists>rl w1 w2 r.
      new_RichLogger LOG_CATEGORIES ''demo'' fresh_world = (None, rl, w1)
      \<and> call LOG_CATEGORIES rl ''read'' ''Loading [/data/in.csv]'' w1
          = Some (Some MarkupError, rl, w2)
      \<and> emitted w2 = [(r, [new_handler])]
      \<and> msg r = ''[magenta]READ    [/] Loading [/data/in.csv]'')"
proof -
  let ?p = "\<lparr>label = ''READ'', color = ''magenta'', level = INFO\<rparr>"
  have cat: "(''read'', ?p) \<in> set LOG_CATEGORIES" by (simp add: LOG_CATEGORIES_def)
  have up: "upper ''READ'' \<noteq> ''DEBUG''" by (simp add: upper_def upper_char_def)
  have a: "\<exists>rl w1 w2 r.
      new_RichLogger LOG_CATEGORIES ''demo'' errors_only_world = (None, rl, w1)
      \<and> call LOG_CATEGORIES rl ''read'' ''Loading dataset'' w1 = Some (None, rl, w2)
      \<and> emitted w2 = [(r, [])]"
  proof -
    obtain e rl w1 where new: "new_RichLogger LOG_CATEGORIES ''demo'' errors_only_world = (e, rl, w1)"
      by (cases "new_RichLogger LOG_CATEGORIES ''demo'' errors_only_world")
    have eq: "w1 = errors_only_world\<lparr>loggerDict := (loggerDict errors_only_world)(''demo'' \<mapsto>
        \<lparr>lg_level = DEBUG, handlers = [OtherHandler ''file'' ERROR], propagate = True\<rparr>)\<rparr>"
      by (subst init_world_eq [OF new [unfolded new_RichLogger_def]])
        (simp add: canon_def the_logger_def errors_only_world_def)
    have w1: "w1\<lparr>exc := exc w1\<rparr> = w1" by simp
    have hs: "callHandlers w1 (canon ''demo'') INFO = []"
      by (simp add: eq callHandlers_def chain_handlers_def the_logger_def canon_def
          errors_only_world_def pristine_def INFO_def ERROR_def)
    have em: "emitted w1 = []" by (simp add: eq errors_only_world_def)
    from call_constructed [OF cat new refl, of "''Loading dataset''" "exc w1"]
    show ?thesis
      using default_instance(1) [OF new] new up by (simp add: w1 hs em)
  qed
  have b: "\<exists>rl w1 w2 r.
      new_RichLogger LOG_CATEGORIES ''demo'' fresh_world = (None, rl, w1)
      \<and> call LOG_CATEGORIES rl ''read'' ''Loading [/data/in.csv]'' w1
          = Some (Some MarkupError, rl, w2)
      \<and> emitted w2 = [(r, [new_handler])]
      \<and> msg r = ''[magenta]READ    [/] Loading [/data/in.csv]''"
  proof -
    obtain e rl w1 where new: "new_RichLogger LOG_CATEGORIES ''demo'' fresh_world = (e, rl, w1)"
      by (cases "new_RichLogger LOG_CATEGORIES ''demo'' fresh_world")
    note fw = fresh_world_construction [OF new]
    have w1: "w1\<lparr>exc := exc w1\<rparr> = w1" by simp
    have hs: "callHandlers w1 (canon ''demo'') INFO = [new_handler]"
      using callHandlers_after_init [OF new [unfolded new_RichLogger_def] fw(1)
          LOG_CATEGORIES_levels [OF cat], of "exc w1"]
      by (simp add: w1)
    from call_constructed [OF cat new refl, of "''Loading [/data/in.csv]''" "exc w1"]
    show ?thesis
      using default_instance(1) [OF new] new up
      by (simp add: w1 hs fw new_handler_raises ljust8_def scan_simps eval_nat_numeral)
  qed
  from a b show ?thesis by blast
qed

text \<open>
  C3, as the code has it. The claim speaks of every category whose severity is debug;
  the code attaches the exception information by label. For every category whose label
  is the word DEBUG up to case, the call adds one record that carries what
  \<^verbatim>\<open>sys.exc_info()\<close> gave at the time of the call, the active exception when there is
  one. With or without an active exception the call raises nothing, unless a handler that
  was handed the record raises for the text it renders.
\<close>

theorem DEBUG_label_gets_traceback:
  assumes cat: "(c, p) \<in> set LOG_CATEGORIES"
    and dbg: "equals_DEBUG_ignoring_case (label p)"
    and new: "new_RichLogger LOG_CATEGORIES nm w = (e, rl, w1)"
  shows "\<exists>e' w2 r hs. call LOG_CATEGORIES rl c message (w1\<lparr>exc := x\<rparr>) = Some (e', rl, w2)
      \<and> emitted w2 = emitted w1 @ [(r, hs)]
      \<and> exc_info r = Some x
      \<and> ((\<forall>h \<in> set hs. \<not> handler_raises w1 h r) \<longrightarrow> e' = None)"
proof -
  let ?r = "\<lparr>logger_name = canon nm, levelno = level p,
      msg = ''['' @ color p @ '']'' @ ljust8 (label p) @ ''[/]'' @ '' '' @ message,
      exc_info = (if upper (label p) = ''DEBUG'' then Some x else None)\<rparr>"
  let ?res = "handle_all w1 ?r (callHandlers w1 (canon nm) (level p))"
  let ?w2 = "w1\<lparr>exc := x, emitted := emitted w1 @ [(?r, snd ?res)]\<rparr>"
  have "call LOG_CATEGORIES rl c message (w1\<lparr>exc := x\<rparr>) = Some (fst ?res, rl, ?w2)"
    by (rule call_constructed [OF cat new refl])
  moreover have "emitted ?w2 = emitted w1 @ [(?r, snd ?res)]" by simp
  moreover have "exc_info ?r = Some x" using dbg by (simp add: upper_is_DEBUG)
  moreover have "(\<forall>h \<in> set (snd ?res). \<not> handler_raises w1 h ?r) \<longrightarrow> fst ?res = None"
    using handle_all_no_error by blast
  ultimately show ?thesis by blast
qed

theorem DEBUG_label_gets_traceback_witness:
  "(''debug'', \<lparr>label = ''DEBUG'', color = ''green'', level = DEBUG\<rparr>) \<in> set LOG_CATEGORIES
   \<and> equals_DEBUG_ignoring_case ''DEBUG''
   \<and> (\<exists>rl w1 w2 r. new_RichLogger LOG_CATEGORIES ''demo'' fresh_world = (None, rl, w1)
      \<and> call LOG_CATEGORIES rl ''debug'' ''ZeroDivisionError test''
            (w1\<lparr>exc := Some ''ZeroDivisionError: division by zero''\<rparr>)
          = Some (None, rl, w2)
      \<and> emitted w2 = emitted w1 @ [(r, [new_handler])]
      \<and> exc_info r = Some (Some ''ZeroDivisionError: division by zero''))"
proof -
  let ?p = "\<lparr>label = ''DEBUG'', color = ''green'', level = DEBUG\<rparr>"
  let ?x = "Some ''ZeroDivisionError: division by zero''"
  have cat: "(''debug'', ?p) \<in> set LOG_CATEGORIES" by (simp add: LOG_CATEGORIES_def)
  have dbg: "equals_DEBUG_ignoring_case (label ?p)" by (simp add: equals_DEBUG_ignoring_case_def)
  obtain e rl w1 where new: "new_RichLogger LOG_CATEGORIES ''demo'' fresh_world = (e, rl, w1)"
    by (cases "new_RichLogger LOG_CATEGORIES ''demo'' fresh_world")
  note fw = fresh_world_construction [OF new]
  have w1: "w1\<lparr>exc := exc w1\<rparr> = w1" by simp
  have hs0: "callHandlers w1 (canon ''demo'') DEBUG = [new_handler]"
    using callHandlers_after_init [OF new [unfolded new_RichLogger_def] fw(1)
        LOG_CATEGORIES_levels [OF cat], of "exc w1"]
    by (simp add: w1)
  from DEBUG_label_gets_traceback [OF cat dbg new, of "''ZeroDivisionError test''" ?x]
  obtain e' w2 r hs where res:
    "call LOG_CATEGORIES rl ''debug'' ''ZeroDivisionError test'' (w1\<lparr>exc := ?x\<rparr>) = Some (e', rl, w2)"
    "emitted w2 = emitted w1 @ [(r, hs)]" "exc_info r = Some ?x"
    "(\<forall>h \<in> set hs. \<not> handler_raises w1 h r) \<longrightarrow> e' = None"
    by blast
  from call_constructed [OF cat new refl, of "''ZeroDivisionError test''" ?x] res(1,2)
  have r: "msg r = ''[green]DEBUG   [/] ZeroDivisionError test''" and hs: "hs = [new_handler]"
    by (auto simp: hs0 ljust8_def eval_nat_numeral)
  have "\<not> handler_raises w1 new_handler r"
    by (simp add: new_handler_raises fw(2) r res(3) scan_simps)
  with res(4) hs have "e' = None" by simp
  with res hs cat dbg new default_instance(1) [OF new] show ?thesis by auto
qed

text \<open>
  Two calls that the claim as written gets wrong. The category \<^verbatim>\<open>check\<close> has severity
  debug and the label \<^verbatim>\<open>CHECK\<close>: called while a \<^verbatim>\<open>ZeroDivisionError\<close> is being
  handled, its record has no exception information. The category \<^verbatim>\<open>debug\<close>, called
  while no exception is active, has a record that carries the triple of \<^verbatim>\<open>None\<close>s, and
  the text the handler renders ends with the line \<^verbatim>\<open>NoneType: None\<close>.
\<close>

theorem check_call_has_no_traceback:
  "(''check'', \<lparr>label = ''CHECK'', color = ''green'', level = DEBUG\<rparr>) \<in> set LOG_CATEGORIES
   \<and> (\<exists>rl w1 w2. new_RichLogger LOG_CATEGORIES ''demo'' fresh_world = (None, rl, w1)
      \<and> call LOG_CATEGORIES rl ''check'' ''Type=int''
            (w1\<lparr>exc := Some ''ZeroDivisionError: division by zero''\<rparr>)
          = Some (None, rl, w2)
      \<and> emitted w2 =
          [(\<lparr>logger_name = ''demo'', levelno = DEBUG, msg = ''[green]CHECK   [/] Type=int'',
             exc_info = None\<rparr>, [RichHandler True False True True True NOTSET])])
   \<and> (\<exists>rl w1 w2 r. new_RichLogger LOG_CATEGORIES ''demo'' fresh_world = (None, rl, w1)
      \<and> call LOG_CATEGORIES rl ''debug'' ''Developer check details'' (w1\<lparr>exc := None\<rparr>)
          = Some (None, rl, w2)
      \<and> emitted w2 = [(r, [RichHandler True False True True True NOTSET])]
      \<and> exc_info r = Some None
      \<and> RichHandler_message True r =
          ''[green]DEBUG   [/] Developer check details'' @ [newline] @ ''NoneType: None'')"
proof -
  obtain e rl w1 where new: "new_RichLogger LOG_CATEGORIES ''demo'' fresh_world = (e, rl, w1)"
    by (cases "new_RichLogger LOG_CATEGORIES ''demo'' fresh_world")
  note e = default_instance(1) [OF new]
  have h: "new_handler = RichHandler True False True True True NOTSET"
    by (simp add: new_handler_def handler_setLevel_def)
  let ?pc = "\<lparr>label = ''CHECK'', color = ''green'', level = DEBUG\<rparr>"
  let ?pd = "\<lparr>label = ''DEBUG'', color = ''green'', level = DEBUG\<rparr>"
  have catc: "(''check'', ?pc) \<in> set LOG_CATEGORIES" by (simp add: LOG_CATEGORIES_def)
  have catd: "(''debug'', ?pd) \<in> set LOG_CATEGORIES" by (simp add: LOG_CATEGORIES_def)
  have a: "call LOG_CATEGORIES rl ''check'' ''Type=int''
            (w1\<lparr>exc := Some ''ZeroDivisionError: division by zero''\<rparr>)
      = Some (None, rl, w1\<lparr>exc := Some ''ZeroDivisionError: division by zero'',
          emitted := [(\<lparr>logger_name = ''demo'', levelno = DEBUG, msg = ''[green]CHECK   [/] Type=int'',
             exc_info = None\<rparr>, [RichHandler True False True True True NOTSET])]\<rparr>)"
    by (subst demo_call [OF catc new refl])
      (simp add: h ljust8_def upper_def upper_char_def scan_simps eval_nat_numeral)
  have b: "call LOG_CATEGORIES rl ''debug'' ''Developer check details'' (w1\<lparr>exc := None\<rparr>)
      = Some (None, rl, w1\<lparr>exc := None,
          emitted := [(\<lparr>logger_name = ''demo'', levelno = DEBUG,
             msg = ''[green]DEBUG   [/] Developer check details'',
             exc_info = Some None\<rparr>, [RichHandler True False True True True NOTSET])]\<rparr>)"
    by (subst demo_call [OF catd new refl])
      (simp add: h ljust8_def upper_def upper_char_def scan_simps eval_nat_numeral)
  have c: "RichHandler_message True \<lparr>logger_name = ''demo'', levelno = DEBUG,
             msg = ''[green]DEBUG   [/] Developer check details'', exc_info = Some None\<rparr>
      = ''[green]DEBUG   [/] Developer check details'' @ [newline] @ ''NoneType: None''"
    by (simp add: RichHandler_message_def Formatter_format_def newline_def)
  show ?thesis
    using catc new e a b c by simp
qed

text \<open>
  C4. For every call of the emit operation \<^verbatim>\<open>log\<close> on a constructed instance, with
  any message, label, level and colour: a call below the logger's level adds no record
  and raises nothing; otherwise the one record has exception information attached
  exactly when the label, compared without regard to case, is the word DEBUG, whatever
  the level, and what is attached is the exception active at the call.
\<close>

theorem traceback_iff_label_is_DEBUG:
  assumes new: "new_RichLogger LOG_CATEGORIES nm w = (e, rl, w1)"
  shows "\<exists>e' w2. log rl message lab lev col (w1\<lparr>exc := x\<rparr>) = (e', w2) \<and>
    (if DEBUG \<le> lev
     then \<exists>r hs. emitted w2 = emitted w1 @ [(r, hs)]
        \<and> (exc_info r \<noteq> None) = equals_DEBUG_ignoring_case lab
        \<and> exc_info r = (if equals_DEBUG_ignoring_case lab then Some x else None)
     else e' = None \<and> emitted w2 = emitted w1)"
proof -
  note inst = default_instance [OF new]
  let ?w = "w1\<lparr>exc := x\<rparr>"
  let ?text = "''['' @ col @ '']'' @ ljust8 lab @ ''[/]'' @ '' '' @ message"
  have lg: "log rl message lab lev col ?w = Logger_log (canon nm) lev ?text (upper lab = ''DEBUG'') ?w"
    by (simp add: log_def inst(3))
  have lvl: "getEffectiveLevel ?w (canon nm) = DEBUG"
    using init_world [OF new [unfolded new_RichLogger_def]]
    by (simp add: getEffectiveLevel_def the_logger_def DEBUG_def)
  show ?thesis
  proof (cases "DEBUG \<le> lev")
    case True
    then have en: "isEnabledFor ?w (canon nm) lev" by (simp add: isEnabledFor_def lvl)
    show ?thesis
      using True
      by (simp add: lg Logger_log_enabled [OF en] upper_is_DEBUG split: prod.splits)
  next
    case False
    then have "\<not> isEnabledFor ?w (canon nm) lev" by (simp add: isEnabledFor_def lvl)
    then show ?thesis using False by (simp add: lg Logger_log_def)
  qed
qed

theorem traceback_iff_label_is_DEBUG_witness:
  "\<exists>rl w1 e' w2 r hs. new_RichLogger LOG_CATEGORIES ''demo'' fresh_world = (None, rl, w1)
     \<and> log rl ''boom'' ''Debug'' INFO ''white''
          (w1\<lparr>exc := Some ''ZeroDivisionError: division by zero''\<rparr>) = (e', w2)
     \<and> emitted w2 = emitted w1 @ [(r, hs)]
     \<and> equals_DEBUG_ignoring_case ''Debug''
     \<and> exc_info r = Some (Some ''ZeroDivisionError: division by zero'')"
proof -
  obtain e rl w1 where new: "new_RichLogger LOG_CATEGORIES ''demo'' fresh_world = (e, rl, w1)"
    by (cases "new_RichLogger LOG_CATEGORIES ''demo'' fresh_world")
  have up: "equals_DEBUG_ignoring_case ''Debug''" by (simp add: equals_DEBUG_ignoring_case_def)
  from traceback_iff_label_is_DEBUG [OF new, of "''boom''" "''Debug''" INFO "''white''"
      "Some ''ZeroDivisionError: division by zero''"]
    default_instance(1) [OF new]
  show ?thesis using new up by (auto simp: INFO_def DEBUG_def)
qed

text \<open>
  C5. Constructing a second \<^verbatim>\<open>RichLogger\<close> with the same name changes nothing: the
  registry after the second construction is the registry after the first, so the named
  logger has no additional handler, and the second instance has the same logger and the
  same generated methods as the first. A category call then adds exactly one record; when
  the named logger had no handler before the first construction, that record is handed to
  exactly one handler, the one the first construction attached.
\<close>

theorem second_construction_changes_nothing:
  assumes first: "new_RichLogger LOG_CATEGORIES nm w = (e1, rl1, w1)"
    and second: "new_RichLogger LOG_CATEGORIES nm w1 = (e2, rl2, w2)"
    and cat: "(c, p) \<in> set LOG_CATEGORIES"
  shows "w2 = w1 \<and> rl2 = rl1
    \<and> handlers (the_logger w2 (canon nm)) = handlers (the_logger w1 (canon nm))
    \<and> (\<exists>e' w3 r hs. call LOG_CATEGORIES rl2 c message w2 = Some (e', rl2, w3)
          \<and> emitted w3 = emitted w2 @ [(r, hs)]
          \<and> (handlers (the_logger w (canon nm)) = [] \<longrightarrow> hs = [new_handler]))"
proof -
  have w: "w2 = w1"
    using first second unfolding new_RichLogger_def by (rule init_world_idem)
  have rl: "rl2 = rl1"
    using new_RichLogger_attrs(2) [OF LOG_CATEGORIES_names(2) LOG_CATEGORIES_names(1) first]
      new_RichLogger_attrs(2) [OF LOG_CATEGORIES_names(2) LOG_CATEGORIES_names(1) second]
    by (intro ext) simp
  have w1: "w1\<lparr>exc := exc w1\<rparr> = w1" by simp
  let ?r = "\<lparr>logger_name = canon nm, levelno = level p,
      msg = ''['' @ color p @ '']'' @ ljust8 (label p) @ ''[/]'' @ '' '' @ message,
      exc_info = (if upper (label p) = ''DEBUG'' then Some (exc w1) else None)\<rparr>"
  let ?res = "handle_all w1 ?r (callHandlers w1 (canon nm) (level p))"
  let ?w3 = "w1\<lparr>emitted := emitted w1 @ [(?r, snd ?res)]\<rparr>"
  have c: "call LOG_CATEGORIES rl1 c message w1 = Some (fst ?res, rl1, ?w3)"
    using call_constructed [OF cat first refl, of message "exc w1"] by (simp add: w1)
  have hs: "snd ?res = [new_handler]" if "handlers (the_logger w (canon nm)) = []"
  proof -
    have "callHandlers w1 (canon nm) (level p) = [new_handler]"
      using callHandlers_after_init [OF first [unfolded new_RichLogger_def] that
          LOG_CATEGORIES_levels [OF cat], of "exc w1"]
      by (simp only: w1)
    then show ?thesis by (simp only: handle_all_single snd_conv)
  qed
  have "emitted ?w3 = emitted w1 @ [(?r, snd ?res)]" by simp
  with c hs show ?thesis unfolding w rl by blast
qed

theorem second_construction_changes_nothing_witness:
  "(''read'', \<lparr>label = ''READ'', color = ''magenta'', level = INFO\<rparr>) \<in> set LOG_CATEGORIES
   \<and> handlers (the_logger fresh_world (canon ''demo'')) = []
   \<and> (\<exists>rl1 w1 rl2 w2 e' w3 r.
        new_RichLogger LOG_CATEGORIES ''demo'' fresh_world = (None, rl1, w1)
      \<and> new_RichLogger LOG_CATEGORIES ''demo'' w1 = (None, rl2, w2)
      \<and> w2 = w1 \<and> rl2 = rl1
      \<and> call LOG_CATEGORIES rl2 ''read'' ''Loading dataset'' w2 = Some (e', rl2, w3)
      \<and> emitted w3 = emitted w2 @ [(r, [new_handler])])"
proof -
  let ?p = "\<lparr>label = ''READ'', color = ''magenta'', level = INFO\<rparr>"
  have cat: "(''read'', ?p) \<in> set LOG_CATEGORIES" by (simp add: LOG_CATEGORIES_def)
  have fresh: "handlers (the_logger fresh_world (canon ''demo'')) = []"
    by (simp add: the_logger_def fresh_world_def pristine_def)
  obtain e1 rl1 w1 where first: "new_RichLogger LOG_CATEGORIES ''demo'' fresh_world = (e1, rl1, w1)"
    by (cases "new_RichLogger LOG_CATEGORIES ''demo'' fresh_world")
  obtain e2 rl2 w2 where second: "new_RichLogger LOG_CATEGORIES ''demo'' w1 = (e2, rl2, w2)"
    by (cases "new_RichLogger LOG_CATEGORIES ''demo'' w1")
  from second_construction_changes_nothing [OF first second cat, of "''Loading dataset''"]
    default_instance(1) [OF first] default_instance(1) [OF second]
  show ?thesis using cat fresh first second by auto
qed

text \<open>
  C7. After construction the named logger's level is \<^verbatim>\<open>DEBUG\<close>, the least level of
  the table, so the logger admits the level of every category. The handler list is the
  new handler alone when the logger had none, and unchanged otherwise; the new handler's
  own level is \<^verbatim>\<open>NOTSET\<close>, which passes every record the logger admits.
\<close>

theorem logger_level_admits_every_category:
  assumes new: "new_RichLogger LOG_CATEGORIES nm w = (e, rl, w1)"
  shows "lg_level (the_logger w1 (canon nm)) = DEBUG
    \<and> getEffectiveLevel w1 (canon nm) = DEBUG
    \<and> (\<forall>(c, p) \<in> set LOG_CATEGORIES. DEBUG \<le> level p \<and> isEnabledFor w1 (canon nm) (level p))
    \<and> handlers (the_logger w1 (canon nm)) =
        (if handlers (the_logger w (canon nm)) = [] then [new_handler]
         else handlers (the_logger w (canon nm)))
    \<and> h_level new_handler = NOTSET
    \<and> (\<forall>l. isEnabledFor w1 (canon nm) l \<longrightarrow> h_level new_handler \<le> l)"
proof -
  note iw = init_world [OF new [unfolded new_RichLogger_def]]
  have lvl: "lg_level (the_logger w1 (canon nm)) = DEBUG" using iw by simp
  then have eff: "getEffectiveLevel w1 (canon nm) = DEBUG"
    by (simp add: getEffectiveLevel_def DEBUG_def)
  have h: "h_level new_handler = NOTSET"
    by (simp add: new_handler_def handler_setLevel_def)
  have cats: "\<forall>(c, p) \<in> set LOG_CATEGORIES. DEBUG \<le> level p \<and> isEnabledFor w1 (canon nm) (level p)"
    using LOG_CATEGORIES_levels by (auto simp: isEnabledFor_def eff)
  have pass: "\<forall>l. isEnabledFor w1 (canon nm) l \<longrightarrow> h_level new_handler \<le> l"
    by (simp add: isEnabledFor_def eff h NOTSET_def DEBUG_def)
  from lvl eff cats h pass iw show ?thesis by simp
qed

theorem logger_level_admits_every_category_witness:
  "\<exists>rl w1. new_RichLogger LOG_CATEGORIES ''demo'' fresh_world = (None, rl, w1)
    \<and> lg_level (the_logger w1 ''demo'') = 10
    \<and> isEnabledFor w1 ''demo'' (level \<lparr>label = ''DEBUG'', color = ''green'', level = DEBUG\<rparr>)
    \<and> handlers (the_logger w1 ''demo'') = [RichHandler True False True True True 0]"
proof -
  obtain e rl w1 where new: "new_RichLogger LOG_CATEGORIES ''demo'' fresh_world = (e, rl, w1)"
    by (cases "new_RichLogger LOG_CATEGORIES ''demo'' fresh_world")
  have cat: "(''debug'', \<lparr>label = ''DEBUG'', color = ''green'', level = DEBUG\<rparr>) \<in> set LOG_CATEGORIES"
    by (simp add: LOG_CATEGORIES_def)
  have fresh: "handlers (the_logger fresh_world ''demo'') = []"
    by (simp add: the_logger_def fresh_world_def pristine_def)
  from logger_level_admits_every_category [OF new] default_instance(1) [OF new] cat
  show ?thesis using new fresh
    by (auto simp: canon_def DEBUG_def NOTSET_def new_handler_def handler_setLevel_def)
qed

text \<open>
  C8, as the code has it. The constructor switches propagation off in the same branch that
  attaches the handler: when the named logger had no handler, the flag is off afterwards
  and every category's record is handed to the new handler alone; when the logger already
  had handlers, the flag keeps the value it had.
\<close>

theorem propagate_off_when_handler_attached:
  assumes new: "new_RichLogger LOG_CATEGORIES nm w = (e, rl, w1)"
  shows "propagate (the_logger w1 (canon nm)) =
      (if handlers (the_logger w (canon nm)) = [] then False
       else propagate (the_logger w (canon nm)))
    \<and> (handlers (the_logger w (canon nm)) = [] \<longrightarrow>
         (\<forall>(c, p) \<in> set LOG_CATEGORIES. callHandlers w1 (canon nm) (level p) = [new_handler]))"
proof -
  note iw = init_world [OF new [unfolded new_RichLogger_def]]
  have w1: "w1\<lparr>exc := exc w1\<rparr> = w1" by simp
  have "callHandlers w1 (canon nm) (level p) = [new_handler]"
    if "handlers (the_logger w (canon nm)) = []" and "(c, p) \<in> set LOG_CATEGORIES" for c p
    using callHandlers_after_init [OF new [unfolded new_RichLogger_def] that(1)
        LOG_CATEGORIES_levels [OF that(2)], of "exc w1"]
    by (simp only: w1)
  then show ?thesis using iw by auto
qed

theorem propagate_off_when_handler_attached_witness:
  "handlers (the_logger fresh_world (canon ''demo'')) = []
   \<and> (\<exists>rl w1. new_RichLogger LOG_CATEGORIES ''demo'' fresh_world = (None, rl, w1)
      \<and> propagate (the_logger w1 ''demo'') = False
      \<and> callHandlers w1 ''demo'' (level \<lparr>label = ''ERROR'', color = ''red'', level = ERROR\<rparr>) = [new_handler])"
proof -
  obtain e rl w1 where new: "new_RichLogger LOG_CATEGORIES ''demo'' fresh_world = (e, rl, w1)"
    by (cases "new_RichLogger LOG_CATEGORIES ''demo'' fresh_world")
  have cat: "(''error'', \<lparr>label = ''ERROR'', color = ''red'', level = ERROR\<rparr>) \<in> set LOG_CATEGORIES"
    by (simp add: LOG_CATEGORIES_def)
  have fresh: "handlers (the_logger fresh_world (canon ''demo'')) = []"
    by (simp add: the_logger_def fresh_world_def pristine_def)
  from propagate_off_when_handler_attached [OF new] default_instance(1) [OF new] cat fresh
  show ?thesis using new by (auto simp: canon_def)
qed

text \<open>
  In the preconfigured interpreter the logger \<^verbatim>\<open>demo\<close> still propagates after
  construction, and one call of \<^verbatim>\<open>read\<close> is rendered by two handlers.
\<close>

theorem preconfigured_logger_still_propagates:
  "\<exists>rl w1 w2. new_RichLogger LOG_CATEGORIES ''demo'' preconfigured_world = (None, rl, w1)
     \<and> propagate (the_logger w1 ''demo'') = True
     \<and> call LOG_CATEGORIES rl ''read'' ''Loading dataset'' w1 = Some (None, rl, w2)
     \<and> emitted w2 =
         [(\<lparr>logger_name = ''demo'', levelno = INFO, msg = ''[magenta]READ    [/] Loading dataset'',
            exc_info = None\<rparr>,
           [OtherHandler ''file'' NOTSET, OtherHandler ''stderr'' NOTSET])]"
proof -
  obtain e rl w1 where new: "new_RichLogger LOG_CATEGORIES ''demo'' preconfigured_world = (e, rl, w1)"
    by (cases "new_RichLogger LOG_CATEGORIES ''demo'' preconfigured_world")
  note inst = default_instance [OF new]
  have cat: "(''read'', \<lparr>label = ''READ'', color = ''magenta'', level = INFO\<rparr>) \<in> set LOG_CATEGORIES"
    by (simp add: LOG_CATEGORIES_def)
  have w1: "w1 = preconfigured_world\<lparr>loggerDict := (loggerDict preconfigured_world)(''demo'' \<mapsto>
      \<lparr>lg_level = DEBUG, handlers = [OtherHandler ''file'' NOTSET], propagate = True\<rparr>)\<rparr>"
    by (subst init_world_eq [OF new [unfolded new_RichLogger_def]])
      (simp add: canon_def the_logger_def preconfigured_world_def)
  have en: "isEnabledFor w1 ''demo'' INFO"
    by (simp add: w1 isEnabledFor_def getEffectiveLevel_def the_logger_def DEBUG_def INFO_def)
  have hs: "callHandlers w1 ''demo'' INFO = [OtherHandler ''file'' NOTSET, OtherHandler ''stderr'' NOTSET]"
    by (simp add: w1 callHandlers_def chain_handlers_def the_logger_def preconfigured_world_def
        NOTSET_def INFO_def)
  have pr: "propagate (the_logger w1 ''demo'') = True"
    by (simp add: w1 the_logger_def)
  have em: "emitted w1 = []" by (simp add: w1 preconfigured_world_def)
  have "call LOG_CATEGORIES rl ''read'' ''Loading dataset'' w1 = Some (None, rl,
      w1\<lparr>emitted := [(\<lparr>logger_name = ''demo'', levelno = INFO, msg = ''[magenta]READ    [/] Loading dataset'',
            exc_info = None\<rparr>,
           [OtherHandler ''file'' NOTSET, OtherHandler ''stderr'' NOTSET])]\<rparr>)"
    using inst(3) hs em
    by (simp add: call_bound_method [OF inst(4) [OF cat] inst(2), of "''demo''"] canon_def
        Logger_log_enabled [OF en] handler_raises_def ljust8_def upper_def upper_char_def
        eval_nat_numeral)
  then show ?thesis using new inst(1) pr by simp
qed

text \<open>
  C6 does not hold for every table. With an entry named \<^verbatim>\<open>log\<close> added to the
  defaults, construction succeeds and sets the instance attribute \<^verbatim>\<open>log\<close> to the
  generated method of that entry. Every generated method then reaches that attribute
  instead of the emit operation: \<^verbatim>\<open>read(message)\<close> and \<^verbatim>\<open>log(message)\<close> both raise
  \<^verbatim>\<open>TypeError\<close> and nothing is emitted.
\<close>

theorem entry_named_log_breaks_every_method:
  "\<exists>rl w1. new_RichLogger extended_table ''demo'' fresh_world = (None, rl, w1)
     \<and> rl ''log'' = Some (BoundLogMethod \<lparr>label = ''LOG'', color = ''white'', level = INFO\<rparr>)
     \<and> rl ''read'' = Some (BoundLogMethod \<lparr>label = ''READ'', color = ''magenta'', level = INFO\<rparr>)
     \<and> call extended_table rl ''log'' ''Loading dataset'' w1 = Some (Some TypeError, rl, w1)
     \<and> call extended_table rl ''read'' ''Loading dataset'' w1 = Some (Some TypeError, rl, w1)
     \<and> emitted w1 = []"
proof -
  obtain e rl w1 where new: "new_RichLogger extended_table ''demo'' fresh_world = (e, rl, w1)"
    by (cases "new_RichLogger extended_table ''demo'' fresh_world")
  note attrs = new_RichLogger_attrs [OF extended_table_names(2) extended_table_names(1) new]
  have l: "rl ''log'' = Some (BoundLogMethod \<lparr>label = ''LOG'', color = ''white'', level = INFO\<rparr>)"
    by (simp add: attrs(2) extended_table_def LOG_CATEGORIES_def)
  have r: "rl ''read'' = Some (BoundLogMethod \<lparr>label = ''READ'', color = ''magenta'', level = INFO\<rparr>)"
    by (simp add: attrs(2) extended_table_def LOG_CATEGORIES_def)
  have em: "emitted w1 = []"
    using init_world [OF new [unfolded new_RichLogger_def]] by (simp add: fresh_world_def)
  show ?thesis
    using new attrs(1) l r em by (simp add: call_def log_method_def)
qed

text \<open>
  C9, as the code has it. A name that is not in the table and is no other attribute of
  the instance or its class raises \<^verbatim>\<open>AttributeError\<close> at once and leaves everything
  unchanged; this includes names of the form \<^verbatim>\<open>__x__\<close> that no object has. The names
  \<^verbatim>\<open>console\<close>, \<^verbatim>\<open>logger\<close>, \<^verbatim>\<open>log\<close>, \<^verbatim>\<open>_attach_log_methods\<close> and
  \<^verbatim>\<open>LOG_CATEGORIES\<close> are attributes that cannot be called with one message: they raise
  \<^verbatim>\<open>TypeError\<close>. No name outside the table, among those the model covers, emits a
  record.
\<close>

theorem unknown_name_raises_AttributeError:
  assumes new: "new_RichLogger LOG_CATEGORIES nm w = (e, rl, w1)"
    and absent: "n \<notin> fst ` set LOG_CATEGORIES"
  shows "(n \<notin> {''console'', ''logger'', ''log'', ''_attach_log_methods'', ''LOG_CATEGORIES''}
          \<and> n \<noteq> ''__init__'' \<and> n \<notin> set object_attrs
          \<longrightarrow> call LOG_CATEGORIES rl n message w1 = Some (Some AttributeError, rl, w1))
    \<and> (n \<in> {''console'', ''logger'', ''log'', ''_attach_log_methods'', ''LOG_CATEGORIES''}
          \<longrightarrow> call LOG_CATEGORIES rl n message w1 = Some (Some TypeError, rl, w1))
    \<and> (\<forall>res. call LOG_CATEGORIES rl n message w1 = Some res
          \<longrightarrow> emitted (snd (snd res)) = emitted w1)"
proof -
  note attrs = new_RichLogger_attrs [OF LOG_CATEGORIES_names(2) LOG_CATEGORIES_names(1) new]
  from absent have none: "map_of LOG_CATEGORIES n = None"
    by (simp add: map_of_eq_None_iff)
  have rl: "rl n = [''console'' \<mapsto> Console, ''logger'' \<mapsto> LoggerRef (canon nm)] n"
    by (simp add: attrs(2) none)
  have a: "n \<notin> {''console'', ''logger'', ''log'', ''_attach_log_methods'', ''LOG_CATEGORIES''}
          \<and> n \<noteq> ''__init__'' \<and> n \<notin> set object_attrs
          \<longrightarrow> call LOG_CATEGORIES rl n message w1 = Some (Some AttributeError, rl, w1)"
    by (auto simp: call_def rl)
  have b: "n \<in> {''console'', ''logger'', ''log'', ''_attach_log_methods'', ''LOG_CATEGORIES''}
          \<longrightarrow> call LOG_CATEGORIES rl n message w1 = Some (Some TypeError, rl, w1)"
    using rl by (auto simp: call_def attrs(2) LOG_CATEGORIES_def)
  have c: "\<forall>res. call LOG_CATEGORIES rl n message w1 = Some res
          \<longrightarrow> emitted (snd (snd res)) = emitted w1"
  proof (intro allI impI)
    fix res assume res: "call LOG_CATEGORIES rl n message w1 = Some res"
    show "emitted (snd (snd res)) = emitted w1"
    proof (cases "n = ''__init__''")
      case True
      have "rl ''__init__'' = None" using rl True by simp
      with res True have "init LOG_CATEGORIES rl message w1 = res" by (simp add: call_def)
      then show ?thesis using init_emitted [of LOG_CATEGORIES rl message w1 "fst res" "fst (snd res)" "snd (snd res)"]
        by simp
    next
      case False
      let ?S = "{''console'', ''logger'', ''log'', ''_attach_log_methods'', ''LOG_CATEGORIES''}"
      show ?thesis
      proof (cases "n \<in> ?S")
        case True
        with b have "call LOG_CATEGORIES rl n message w1 = Some (Some TypeError, rl, w1)"
          by (rule mp)
        with res have "res = (Some TypeError, rl, w1)" by simp
        then show ?thesis by simp
      next
        case out: False
        then have none: "rl n = None" using rl by simp
        show ?thesis
        proof (cases "n \<in> set object_attrs")
          case True
          with none out False have "call LOG_CATEGORIES rl n message w1 = None"
            by (simp add: call_def)
          with res show ?thesis by simp
        next
          case False
          with a out \<open>n \<noteq> ''__init__''\<close>
          have "call LOG_CATEGORIES rl n message w1 = Some (Some AttributeError, rl, w1)"
            by blast
          with res have "res = (Some AttributeError, rl, w1)" by simp
          then show ?thesis by simp
        qed
      qed
    qed
  qed
  from a b c show ?thesis by blast
qed

theorem unknown_name_raises_AttributeError_witness:
  "''verbose'' \<notin> fst ` set LOG_CATEGORIES \<and> ''__foo__'' \<notin> fst ` set LOG_CATEGORIES
   \<and> (\<exists>rl w1. new_RichLogger LOG_CATEGORIES ''demo'' fresh_world = (None, rl, w1)
        \<and> call LOG_CATEGORIES rl ''verbose'' ''details'' w1 = Some (Some AttributeError, rl, w1)
        \<and> call LOG_CATEGORIES rl ''__foo__'' ''details'' w1 = Some (Some AttributeError, rl, w1))"
proof -
  have absent: "''verbose'' \<notin> fst ` set LOG_CATEGORIES" "''__foo__'' \<notin> fst ` set LOG_CATEGORIES"
    by (simp_all add: LOG_CATEGORIES_def)
  have nd: "''verbose'' \<noteq> ''__init__''" "''verbose'' \<notin> set object_attrs"
    "''__foo__'' \<noteq> ''__init__''" "''__foo__'' \<notin> set object_attrs"
    by (simp_all add: object_attrs_def)
  obtain e rl w1 where new: "new_RichLogger LOG_CATEGORIES ''demo'' fresh_world = (e, rl, w1)"
    by (cases "new_RichLogger LOG_CATEGORIES ''demo'' fresh_world")
  have names: "''verbose'' \<notin> {''console'', ''logger'', ''log'', ''_attach_log_methods'', ''LOG_CATEGORIES''}"
    "''__foo__'' \<notin> {''console'', ''logger'', ''log'', ''_attach_log_methods'', ''LOG_CATEGORIES''}"
    by simp_all
  have a: "call LOG_CATEGORIES rl ''verbose'' ''details'' w1 = Some (Some AttributeError, rl, w1)"
    using unknown_name_raises_AttributeError [OF new absent(1), of "''details''"] names(1) nd(1,2)
    by blast
  have b: "call LOG_CATEGORIES rl ''__foo__'' ''details'' w1 = Some (Some AttributeError, rl, w1)"
    using unknown_name_raises_AttributeError [OF new absent(2), of "''details''"] names(2) nd(3,4)
    by blast
  from a b absent new default_instance(1) [OF new] show ?thesis by blast
qed

text \<open>
  The name \<^verbatim>\<open>__init__\<close> is not in the table, and calling it with one argument does not
  fail: it runs the constructor again on the instance.
\<close>

theorem calling_init_does_not_fail:
  "''__init__'' \<notin> fst ` set LOG_CATEGORIES
   \<and> (\<exists>rl w1 rl' w2. new_RichLogger LOG_CATEGORIES ''demo'' fresh_world = (None, rl, w1)
        \<and> call LOG_CATEGORIES rl ''__init__'' ''other'' w1 = Some (None, rl', w2))"
proof -
  have absent: "''__init__'' \<notin> fst ` set LOG_CATEGORIES" by (simp add: LOG_CATEGORIES_def)
  obtain e rl w1 where new: "new_RichLogger LOG_CATEGORIES ''demo'' fresh_world = (e, rl, w1)"
    by (cases "new_RichLogger LOG_CATEGORIES ''demo'' fresh_world")
  note attrs = new_RichLogger_attrs [OF LOG_CATEGORIES_names(2) LOG_CATEGORIES_names(1) new]
  have a: "rl ''__init__'' = None" "rl ''_attach_log_methods'' = None" "rl ''LOG_CATEGORIES'' = None"
    by (simp_all add: attrs(2) LOG_CATEGORIES_def)
  have c: "call LOG_CATEGORIES rl ''__init__'' ''other'' w1 = Some (init LOG_CATEGORIES rl ''other'' w1)"
    by (simp add: call_def a(1))
  have "fst (init LOG_CATEGORIES rl ''other'' w1) = None"
    by (rule init_no_error [OF a(2) a(3) LOG_CATEGORIES_names(2)])
  then obtain rl' w2 where "init LOG_CATEGORIES rl ''other'' w1 = (None, rl', w2)"
    by (cases "init LOG_CATEGORIES rl ''other'' w1") auto
  with c absent new attrs(1) show ?thesis by auto
qed

text \<open>
  C10. A category call on a constructed instance, made in any state of the interpreter,
  returns the instance as it was and a state with the same logger registry (hence the
  same level, handlers and propagate flag of every logger) and the same active
  exception: only the list of emitted records can grow. The table is an argument that
  no operation of the class returns or rebinds.
\<close>

theorem category_call_changes_no_facade_state:
  assumes cat: "(c, p) \<in> set LOG_CATEGORIES"
    and new: "new_RichLogger LOG_CATEGORIES nm w = (e, rl, w1)"
  shows "\<exists>e' w''. call LOG_CATEGORIES rl c message w' = Some (e', rl, w'')
    \<and> loggerDict w'' = loggerDict w' \<and> exc w'' = exc w'
    \<and> the_logger w'' (canon nm) = the_logger w' (canon nm)"
proof -
  note inst = default_instance [OF new]
  show ?thesis
    by (simp add: call_bound_method [OF inst(4) [OF cat] inst(2) inst(3)] Logger_log_def
        the_logger_def Let_def split: prod.splits)
qed

theorem category_call_changes_no_facade_state_witness:
  "(''warning'', \<lparr>label = ''WARNING'', color = ''yellow'', level = WARNING\<rparr>) \<in> set LOG_CATEGORIES
   \<and> (\<exists>rl w1 e' w''. new_RichLogger LOG_CATEGORIES ''demo'' fresh_world = (None, rl, w1)
        \<and> call LOG_CATEGORIES rl ''warning'' ''4 ignored'' w1 = Some (e', rl, w'')
        \<and> loggerDict w'' = loggerDict w1 \<and> the_logger w'' ''demo'' = the_logger w1 ''demo'')"
proof -
  have cat: "(''warning'', \<lparr>label = ''WARNING'', color = ''yellow'', level = WARNING\<rparr>) \<in> set LOG_CATEGORIES"
    by (simp add: LOG_CATEGORIES_def)
  obtain e rl w1 where new: "new_RichLogger LOG_CATEGORIES ''demo'' fresh_world = (e, rl, w1)"
    by (cases "new_RichLogger LOG_CATEGORIES ''demo'' fresh_world")
  from category_call_changes_no_facade_state [OF cat new, of "''4 ignored''" w1]
    default_instance(1) [OF new]
  show ?thesis using cat new by (auto simp: canon_def)
qed

end
